theory Spec2Isabelle
  imports Main "HOL-Library.Sublist"
begin

section \<open>The dispatch core of panther (\<^verbatim>\<open>src/panther/main.py\<close>)\<close>

text \<open>
  The class \<^verbatim>\<open>Panther\<close> resolves a handler by path, runs the request through the
  configured middlewares, calls the handler, runs the middlewares' after-hooks and emits
  a response. The state it works on is the process-wide dictionary \<^verbatim>\<open>config\<close>, of
  which the keys \<^verbatim>\<open>'urls'\<close> and \<^verbatim>\<open>'middlewares'\<close> matter here. Every function below
  takes that state and returns it updated; what the code does to the outside (logging,
  the monitoring middleware, \<^verbatim>\<open>http_response\<close>, the calls of the hooks and of the
  endpoint) is recorded as a list of events, in the order of the calls.
\<close>

subsection \<open>Python values, exceptions, requests and responses\<close>

text \<open>
  The payloads of responses and of exception details are Python values; a \<^verbatim>\<open>dict\<close> is an
  association list in insertion order.
\<close>

datatype pyval =
    PNone
  | PBool bool
  | PInt int
  | PStr string
  | PList "pyval list"
  | PDict "(string \<times> pyval) list"

text \<open>\<^verbatim>\<open>isinstance(v, dict)\<close>\<close>

fun isinstance_dict :: "pyval \<Rightarrow> bool" where
  "isinstance_dict (PDict d) = True"
| "isinstance_dict v = False"

text \<open>
  \<^verbatim>\<open>panther.exceptions.APIException\<close> carries \<^verbatim>\<open>detail\<close> and \<^verbatim>\<open>status_code\<close>.
\<close>

record api_exception =
  detail :: pyval
  exc_status_code :: int

text \<open>
  What a hook or an endpoint can raise, by the \<^verbatim>\<open>except\<close> clause of \<^verbatim>\<open>run\<close> that
  catches it: an \<^verbatim>\<open>APIException\<close>; any other subclass of \<^verbatim>\<open>Exception\<close> (with its
  message); or a system-exiting exception, which derives from \<^verbatim>\<open>BaseException\<close> only
  (\<^verbatim>\<open>SystemExit\<close>, \<^verbatim>\<open>KeyboardInterrupt\<close>, \<^verbatim>\<open>asyncio.CancelledError\<close>) and is caught by
  neither clause.
\<close>

datatype exn =
    APIException api_exception
  | Exception string
  | SystemExiting string

record response =
  data :: pyval
  status_code :: int

text \<open>The ASGI scope, as far as \<^verbatim>\<open>run\<close> reads it, and the request built from it.\<close>

record scope =
  scope_path :: string
  scope_method :: string

record request =
  path :: string
  method_name :: string
  body :: string

definition Request :: "scope \<Rightarrow> string \<Rightarrow> request" where
  "Request sc b = \<lparr>path = scope_path sc, method_name = scope_method sc, body = b\<rparr>"

subsection \<open>Middlewares, endpoints and the configuration\<close>

text \<open>
  A hook is code of the application: it may keep state of its own, return a value or
  raise. It is a function of a state \<open>'w\<close> (everything the application's code can read
  and write, apart from \<^verbatim>\<open>config\<close>) to the new state and the result.
\<close>

type_synonym 'w before_hook = "'w \<Rightarrow> request \<Rightarrow> 'w \<times> (exn + request)"
type_synonym 'w after_hook = "'w \<Rightarrow> response \<Rightarrow> 'w \<times> (exn + response)"
type_synonym 'w handler = "'w \<Rightarrow> request \<Rightarrow> 'w \<times> (exn + response)"

record 'w middleware =
  name :: string
  before :: "'w before_hook"
  after :: "'w after_hook"

text \<open>
  The values of the \<^verbatim>\<open>urls\<close> dictionary of the project: \<^verbatim>\<open>None\<close>, \<^verbatim>\<open>...\<close>, a nested
  dictionary, or an endpoint.
\<close>

datatype 'w url_value =
    UNone
  | UEllipsis
  | UDict "(string \<times> 'w url_value) list"
  | UEndpoint "'w handler"

record 'w config =
  urls :: "(string \<times> 'w url_value) list"
  middlewares :: "'w middleware list"

text \<open>
  The calls that leave \<^verbatim>\<open>main.py\<close>, with their arguments. \<^verbatim>\<open>HttpResponse\<close> records
  the keyword arguments \<^verbatim>\<open>status_code\<close>, \<^verbatim>\<open>body\<close> and \<^verbatim>\<open>exception\<close> of a call of
  \<^verbatim>\<open>http_response\<close>; \<open>None\<close> is an argument the call leaves out. \<^verbatim>\<open>EndpointCalled\<close>
  is the evaluation of \<^verbatim>\<open>endpoint(request=request)\<close>, which raises \<^verbatim>\<open>TypeError\<close> when
  the value is not callable.
\<close>

datatype event =
    MonitoringBefore request
  | BeforeCalled string request
  | EndpointCalled request
  | AfterCalled string response
  | LoggerError string
  | LoggerCritical string
  | HttpResponse int "pyval option" "bool option"

subsection \<open>Dictionaries\<close>

text \<open>\<^verbatim>\<open>d[k] = v\<close>: the value of an existing key is replaced in place, a new key is appended.\<close>

fun setitem :: "('k \<times> 'v) list \<Rightarrow> 'k \<Rightarrow> 'v \<Rightarrow> ('k \<times> 'v) list" where
  "setitem [] k v = [(k, v)]"
| "setitem ((k', v') # d) k v =
     (if k' = k then (k', v) # d else (k', v') # setitem d k v)"

text \<open>\<^verbatim>\<open>d[k]\<close> raises \<^verbatim>\<open>KeyError\<close> for a missing key.\<close>

fun getitem :: "(string \<times> 'v) list \<Rightarrow> string \<Rightarrow> exn + 'v" where
  "getitem [] k = Inl (Exception ''KeyError'')"
| "getitem ((k', v') # d) k = (if k' = k then Inr v' else getitem d k)"

definition keys :: "('k \<times> 'v) list \<Rightarrow> 'k list" where
  "keys d = map fst d"

subsection \<open>\<^verbatim>\<open>Panther.handle_exceptions\<close>\<close>

definition handle_exceptions :: "api_exception \<Rightarrow> response" where
  "handle_exceptions e =
     \<lparr>data = (if isinstance_dict (detail e) then detail e else PDict [(''detail'', detail e)]),
      status_code = exc_status_code e\<rparr>"

subsection \<open>\<^verbatim>\<open>Panther.find_endpoint\<close>\<close>

text \<open>
  The loop runs over the keys of \<^verbatim>\<open>config['urls']\<close> and returns \<^verbatim>\<open>config['urls'][url]\<close>
  at the first key equal to the path; when it ends, the function returns \<^verbatim>\<open>None\<close>.
\<close>

fun find_endpoint_loop ::
  "string list \<Rightarrow> (string \<times> 'w url_value) list \<Rightarrow> string \<Rightarrow> exn + 'w url_value" where
  "find_endpoint_loop [] us p = Inr UNone"
| "find_endpoint_loop (url # rest) us p =
     (if p = url then getitem us url else find_endpoint_loop rest us p)"

definition find_endpoint :: "'w config \<Rightarrow> string \<Rightarrow> exn + 'w url_value" where
  "find_endpoint cfg p = find_endpoint_loop (keys (urls cfg)) (urls cfg) p"

subsection \<open>\<^verbatim>\<open>Panther.collect_urls\<close>\<close>

text \<open>
  The loop over \<^verbatim>\<open>urls.items()\<close>: two checks that log an error, then a nested
  dictionary is collected under the prefix \<^verbatim>\<open>f'{pre_url}/{url}'\<close>, and anything else is
  stored under \<^verbatim>\<open>f'{pre_url}{url}'\<close>. The state is \<^verbatim>\<open>config\<close> and the log.
\<close>

definition ellipsis_message :: "string \<Rightarrow> string \<Rightarrow> string" where
  "ellipsis_message pre_url url =
     ''URL Can't Point To Ellipsis. ('' @ [CHR 0x27] @ pre_url @ url @ [CHR 0x27] @ '' -> ...)''"

definition none_message :: "string \<Rightarrow> string \<Rightarrow> string" where
  "none_message pre_url url =
     ''URL Can't Point To None. ('' @ [CHR 0x27] @ pre_url @ url @ [CHR 0x27] @ '' -> None)''"

fun is_ellipsis :: "'w url_value \<Rightarrow> bool" where
  "is_ellipsis UEllipsis = True"
| "is_ellipsis v = False"

fun is_none :: "'w url_value \<Rightarrow> bool" where
  "is_none UNone = True"
| "is_none v = False"

fun collect_urls ::
    "string \<Rightarrow> (string \<times> 'w url_value) list \<Rightarrow> 'w config \<times> event list \<Rightarrow> 'w config \<times> event list"
  and collect_item ::
    "string \<Rightarrow> string \<Rightarrow> 'w url_value \<Rightarrow> 'w config \<times> event list \<Rightarrow> 'w config \<times> event list"
  where
  "collect_urls pre_url [] s = s"
| "collect_urls pre_url ((url, endpoint) # rest) s =
     collect_urls pre_url rest (collect_item pre_url url endpoint s)"
| "collect_item pre_url url endpoint (cfg, log) =
     (let log1 = (if is_ellipsis endpoint then log @ [LoggerError (ellipsis_message pre_url url)] else log);
          log2 = (if is_none endpoint then log1 @ [LoggerError (none_message pre_url url)] else log1)
      in case endpoint of
           UDict d \<Rightarrow> collect_urls (pre_url @ ''/'' @ url) d (cfg, log2)
         | _ \<Rightarrow> (cfg\<lparr>urls := setitem (urls cfg) (pre_url @ url) endpoint\<rparr>, log2))"

subsection \<open>\<^verbatim>\<open>Panther.run\<close>\<close>

text \<open>
  \<^verbatim>\<open>panther.status\<close> is not part of these sources; the two constants are the HTTP
  status codes of their names.
\<close>

definition HTTP_404_NOT_FOUND :: int where
  "HTTP_404_NOT_FOUND = 404"

definition HTTP_500_INTERNAL_SERVER_ERROR :: int where
  "HTTP_500_INTERNAL_SERVER_ERROR = 500"

text \<open>
  \<^verbatim>\<open>await endpoint(request=request)\<close>: only an endpoint can be called; calling
  \<^verbatim>\<open>...\<close> or a dictionary raises \<^verbatim>\<open>TypeError\<close>.
\<close>

fun call_endpoint :: "'w url_value \<Rightarrow> 'w \<Rightarrow> request \<Rightarrow> 'w \<times> (exn + response)" where
  "call_endpoint (UEndpoint f) w req = f w req"
| "call_endpoint v w req = (w, Inl (Exception ''TypeError''))"

text \<open>
  The loop \<^verbatim>\<open>for middleware in config['middlewares']: request = await
  middleware.before(request=request)\<close>. A hook that raises ends the loop. The result is
  the state of the application, the events and the request or the exception.
\<close>

fun before_pass ::
  "'w middleware list \<Rightarrow> 'w \<Rightarrow> request \<Rightarrow> 'w \<times> event list \<times> (exn + request)" where
  "before_pass [] w req = (w, [], Inr req)"
| "before_pass (m # ms) w req =
     (case before m w req of
        (w', Inl e) \<Rightarrow> (w', [BeforeCalled (name m) req], Inl e)
      | (w', Inr req') \<Rightarrow>
          (case before_pass ms w' req' of
             (w'', evs, r) \<Rightarrow> (w'', BeforeCalled (name m) req # evs, r)))"

text \<open>The body of the first \<^verbatim>\<open>try\<close>: the before-hooks, then the endpoint.\<close>

definition try_body ::
  "'w middleware list \<Rightarrow> 'w url_value \<Rightarrow> 'w \<Rightarrow> request \<Rightarrow> 'w \<times> event list \<times> (exn + response)" where
  "try_body ms endpoint w req =
     (case before_pass ms w req of
        (w', evs, Inl e) \<Rightarrow> (w', evs, Inl e)
      | (w', evs, Inr req') \<Rightarrow>
          (case call_endpoint endpoint w' req' of
             (w'', r) \<Rightarrow> (w'', evs @ [EndpointCalled req'], r)))"

text \<open>
  The loop \<^verbatim>\<open>for middleware in config['middlewares']: try: response = await
  middleware.after(response=response) except APIException as e: response =
  self.handle_exceptions(e)\<close>. Any other exception leaves the loop and \<^verbatim>\<open>run\<close>.
\<close>

fun after_pass ::
  "'w middleware list \<Rightarrow> 'w \<Rightarrow> response \<Rightarrow> 'w \<times> event list \<times> (exn + response)" where
  "after_pass [] w resp = (w, [], Inr resp)"
| "after_pass (m # ms) w resp =
     (case after m w resp of
        (w', Inr resp') \<Rightarrow>
          (case after_pass ms w' resp' of
             (w'', evs, r) \<Rightarrow> (w'', AfterCalled (name m) resp # evs, r))
      | (w', Inl (APIException e)) \<Rightarrow>
          (case after_pass ms w' (handle_exceptions e) of
             (w'', evs, r) \<Rightarrow> (w'', AfterCalled (name m) resp # evs, r))
      | (w', Inl e) \<Rightarrow> (w', [AfterCalled (name m) resp], Inl e))"

text \<open>
  What one call of \<^verbatim>\<open>run\<close> leaves behind: \<^verbatim>\<open>config\<close>, the state of the
  application, the events in order, and the exception that left \<^verbatim>\<open>run\<close>, if one did.
\<close>

record 'w outcome =
  out_config :: "'w config"
  out_world :: 'w
  out_events :: "event list"
  out_raised :: "exn option"

text \<open>
  From \<^verbatim>\<open>config['middlewares'].reverse()\<close> to the end of \<^verbatim>\<open>run\<close>: the shared list is
  reversed in place, the after-hooks run over it, and the response is sent.
\<close>

definition after_part :: "'w config \<Rightarrow> 'w \<Rightarrow> event list \<Rightarrow> response \<Rightarrow> 'w outcome" where
  "after_part cfg w evs resp =
     (let cfg' = cfg\<lparr>middlewares := rev (middlewares cfg)\<rparr> in
      case after_pass (middlewares cfg') w resp of
        (w', evs', Inl e) \<Rightarrow>
          \<lparr>out_config = cfg', out_world = w', out_events = evs @ evs', out_raised = Some e\<rparr>
      | (w', evs', Inr resp') \<Rightarrow>
          \<lparr>out_config = cfg', out_world = w',
           out_events = evs @ evs' @ [HttpResponse (status_code resp') (Some (data resp')) None],
           out_raised = None\<rparr>)"

text \<open>
  \<^verbatim>\<open>run\<close>, from the request built of the scope and the body that \<^verbatim>\<open>read_body\<close>
  returned.
\<close>

definition run :: "'w config \<Rightarrow> 'w \<Rightarrow> scope \<Rightarrow> string \<Rightarrow> 'w outcome" where
  "run cfg w sc b =
     (let req = Request sc b;
          evs0 = [MonitoringBefore req] in
      case find_endpoint cfg (path req) of
        Inl e \<Rightarrow> \<lparr>out_config = cfg, out_world = w, out_events = evs0, out_raised = Some e\<rparr>
      | Inr endpoint \<Rightarrow>
          if is_none endpoint then
            \<lparr>out_config = cfg, out_world = w,
             out_events = evs0 @ [HttpResponse HTTP_404_NOT_FOUND None (Some True)],
             out_raised = None\<rparr>
          else
            (case try_body (middlewares cfg) endpoint w req of
               (w', evs, Inr resp) \<Rightarrow> after_part cfg w' (evs0 @ evs) resp
             | (w', evs, Inl (APIException e)) \<Rightarrow>
                 after_part cfg w' (evs0 @ evs) (handle_exceptions e)
             | (w', evs, Inl (Exception x)) \<Rightarrow>
                 \<lparr>out_config = cfg, out_world = w',
                  out_events = evs0 @ evs @
                    [LoggerCritical x, HttpResponse HTTP_500_INTERNAL_SERVER_ERROR None (Some True)],
                  out_raised = None\<rparr>
             | (w', evs, Inl (SystemExiting x)) \<Rightarrow>
                 \<lparr>out_config = cfg, out_world = w', out_events = evs0 @ evs,
                  out_raised = Some (SystemExiting x)\<rparr>))"

text \<open>The names of the middlewares whose hooks were called, in the order of the calls.\<close>

fun before_calls :: "event list \<Rightarrow> string list" where
  "before_calls [] = []"
| "before_calls (BeforeCalled n r # evs) = n # before_calls evs"
| "before_calls (ev # evs) = before_calls evs"

fun after_calls :: "event list \<Rightarrow> string list" where
  "after_calls [] = []"
| "after_calls (AfterCalled n r # evs) = n # after_calls evs"
| "after_calls (ev # evs) = after_calls evs"

text \<open>The calls of \<^verbatim>\<open>http_response\<close> among the events.\<close>

fun http_responses :: "event list \<Rightarrow> event list" where
  "http_responses [] = []"
| "http_responses (HttpResponse s b x # evs) = HttpResponse s b x # http_responses evs"
| "http_responses (ev # evs) = http_responses evs"

fun endpoint_calls :: "event list \<Rightarrow> request list" where
  "endpoint_calls [] = []"
| "endpoint_calls (EndpointCalled r # evs) = r # endpoint_calls evs"
| "endpoint_calls (ev # evs) = endpoint_calls evs"

subsection \<open>Predicates of the properties\<close>

text \<open>
  The last statement of \<^verbatim>\<open>run\<close> is the only call of \<^verbatim>\<open>http_response\<close> with a
  \<^verbatim>\<open>body\<close> and without \<^verbatim>\<open>exception\<close>. A request is fully served when \<^verbatim>\<open>run\<close>
  returned after that call, that is, after the after-pass.
\<close>

fun is_after_response :: "event \<Rightarrow> bool" where
  "is_after_response (HttpResponse s (Some b) None) = True"
| "is_after_response ev = False"

definition fully_served :: "'w outcome \<Rightarrow> bool" where
  "fully_served out \<longleftrightarrow>
     out_raised out = None \<and> out_events out \<noteq> [] \<and> is_after_response (last (out_events out))"


text \<open>\<^verbatim>\<open>isinstance(endpoint, dict)\<close> in \<^verbatim>\<open>collect_urls\<close>\<close>

fun is_dict :: "'w url_value \<Rightarrow> bool" where
  "is_dict (UDict d) = True"
| "is_dict v = False"

text \<open>
  The assignments \<^verbatim>\<open>config['urls'][path] = endpoint\<close> that \<^verbatim>\<open>collect_urls\<close> makes
  for a dictionary of routes, as pairs of path and value in the order in which they are
  made, and a dictionary after a list of assignments.
\<close>

fun flatten_urls :: "string \<Rightarrow> (string \<times> 'w url_value) list \<Rightarrow> (string \<times> 'w url_value) list"
  and flatten_item :: "string \<Rightarrow> string \<Rightarrow> 'w url_value \<Rightarrow> (string \<times> 'w url_value) list"
  where
  "flatten_urls pre_url [] = []"
| "flatten_urls pre_url ((url, endpoint) # rest) =
     flatten_item pre_url url endpoint @ flatten_urls pre_url rest"
| "flatten_item pre_url url endpoint =
     (case endpoint of
        UDict d \<Rightarrow> flatten_urls (pre_url @ ''/'' @ url) d
      | _ \<Rightarrow> [(pre_url @ url, endpoint)])"

definition store_all ::
  "(string \<times> 'w url_value) list \<Rightarrow> (string \<times> 'w url_value) list \<Rightarrow> (string \<times> 'w url_value) list" where
  "store_all d ws = foldl (\<lambda>d (k, v). setitem d k v) d ws"

subsection \<open>Example projects\<close>

text \<open>
  Middlewares and endpoints without state of their own: a middleware that passes
  everything on, one whose before-hook raises 403, one whose after-hook raises 418, one
  whose after-hook wraps the payload, and two that raise another exception, one in its
  after-hook and one in its before-hook.
\<close>

definition pass_mw :: "string \<Rightarrow> unit middleware" where
  "pass_mw n = \<lparr>name = n, before = (\<lambda>w r. (w, Inr r)), after = (\<lambda>w r. (w, Inr r))\<rparr>"

definition forbidden :: api_exception where
  "forbidden = \<lparr>detail = PStr ''forbidden'', exc_status_code = 403\<rparr>"

definition deny_mw :: "string \<Rightarrow> unit middleware" where
  "deny_mw n =
     \<lparr>name = n, before = (\<lambda>w r. (w, Inl (APIException forbidden))), after = (\<lambda>w r. (w, Inr r))\<rparr>"

definition teapot :: api_exception where
  "teapot = \<lparr>detail = PStr ''teapot'', exc_status_code = 418\<rparr>"

definition fail_after_mw :: "string \<Rightarrow> unit middleware" where
  "fail_after_mw n =
     \<lparr>name = n, before = (\<lambda>w r. (w, Inr r)), after = (\<lambda>w r. (w, Inl (APIException teapot)))\<rparr>"

definition tag_mw :: "string \<Rightarrow> unit middleware" where
  "tag_mw n =
     \<lparr>name = n, before = (\<lambda>w r. (w, Inr r)),
      after = (\<lambda>w r. (w, Inr (r\<lparr>data := PDict [(''served_by'', PStr n), (''inner'', data r)]\<rparr>)))\<rparr>"

definition crash_after_mw :: "string \<Rightarrow> unit middleware" where
  "crash_after_mw n =
     \<lparr>name = n, before = (\<lambda>w r. (w, Inr r)), after = (\<lambda>w r. (w, Inl (Exception ''boom'')))\<rparr>"

definition ok_response :: response where
  "ok_response = \<lparr>data = PDict [(''ok'', PBool True)], status_code = 200\<rparr>"

definition ok_handler :: "unit handler" where
  "ok_handler w req = (w, Inr ok_response)"

definition crash_handler :: "unit handler" where
  "crash_handler w req = (w, Inl (Exception ''boom''))"

definition users_scope :: scope where
  "users_scope = \<lparr>scope_path = ''/users'', scope_method = ''GET''\<rparr>"

definition users_request :: request where
  "users_request = \<lparr>path = ''/users'', method_name = ''GET'', body = []\<rparr>"

definition x_scope :: scope where
  "x_scope = \<lparr>scope_path = ''x'', scope_method = ''GET''\<rparr>"

definition empty_config :: "unit config" where
  "empty_config = \<lparr>urls = [], middlewares = []\<rparr>"

definition users_config :: "unit config" where
  "users_config = \<lparr>urls = [(''/users'', UEndpoint ok_handler)], middlewares = []\<rparr>"

definition abc_config :: "unit config" where
  "abc_config =
     \<lparr>urls = [(''/users'', UEndpoint ok_handler)],
      middlewares = [pass_mw ''A'', pass_mw ''B'', pass_mw ''C'']\<rparr>"

definition deny_config :: "unit config" where
  "deny_config =
     \<lparr>urls = [(''/users'', UEndpoint ok_handler)],
      middlewares = [pass_mw ''A'', deny_mw ''B'', pass_mw ''C'']\<rparr>"

definition crash_config :: "unit config" where
  "crash_config =
     \<lparr>urls = [(''/users'', UEndpoint crash_handler)], middlewares = [pass_mw ''A'']\<rparr>"

definition crash_after_config :: "unit config" where
  "crash_after_config =
     \<lparr>urls = [(''/users'', UEndpoint ok_handler)], middlewares = [crash_after_mw ''A'']\<rparr>"

definition crash_before_mw :: "string \<Rightarrow> unit middleware" where
  "crash_before_mw n =
     \<lparr>name = n, before = (\<lambda>w r. (w, Inl (Exception ''boom''))), after = (\<lambda>w r. (w, Inr r))\<rparr>"

definition crash_before_config :: "unit config" where
  "crash_before_config =
     \<lparr>urls = [(''/users'', UEndpoint ok_handler)],
      middlewares = [pass_mw ''A'', crash_before_mw ''B'', pass_mw ''C'']\<rparr>"

text \<open>
  The \<^verbatim>\<open>urls\<close> of three projects: two placeholders, a leaf beside a group with two
  leaves, and two groups whose leaves get the same path.
\<close>

definition placeholder_urls :: "(string \<times> unit url_value) list" where
  "placeholder_urls = [(''x'', UEllipsis), (''y'', UNone)]"

definition collision_urls :: "(string \<times> unit url_value) list" where
  "collision_urls =
     [(''a'', UDict [(''bc'', UEndpoint ok_handler)]),
      (''ab'', UDict [(''c'', UEndpoint crash_handler)])]"

definition users_two_urls :: "(string \<times> unit url_value) list" where
  "users_two_urls =
     [(''health'', UEndpoint ok_handler),
      (''users'', UDict [(''list'', UEndpoint ok_handler), (''del'', UEndpoint crash_handler)])]"

section \<open>Properties\<close>

lemmas example_defs =
  pass_mw_def deny_mw_def fail_after_mw_def tag_mw_def crash_after_mw_def ok_handler_def
  crash_handler_def users_scope_def users_request_def x_scope_def empty_config_def
  users_config_def abc_config_def deny_config_def crash_config_def crash_after_config_def

lemmas run_defs =
  run_def Let_def Request_def find_endpoint_def keys_def try_body_def after_part_def
  HTTP_404_NOT_FOUND_def HTTP_500_INTERNAL_SERVER_ERROR_def

subsection \<open>The exception translator\<close>

text \<open>
  Claim C3. For every \<^verbatim>\<open>APIException\<close> \<open>e\<close>, \<^verbatim>\<open>handle_exceptions\<close> returns a response
  whose status code is the status code of \<open>e\<close> and whose data is the detail of \<open>e\<close>
  unchanged when the detail is a dictionary, and the dictionary \<^verbatim>\<open>{'detail': detail}\<close>
  otherwise. The function has no state and no failing branch: it returns a response for
  every \<open>e\<close>.
\<close>

theorem handle_exceptions_translate:
  "status_code (handle_exceptions e) = exc_status_code e \<and>
   (\<forall>d. detail e = PDict d \<longrightarrow> data (handle_exceptions e) = PDict d) \<and>
   ((\<forall>d. detail e \<noteq> PDict d) \<longrightarrow> data (handle_exceptions e) = PDict [(''detail'', detail e)])"
  by (cases "detail e") (simp_all add: handle_exceptions_def)

text \<open>
  The two examples of the specification: a message with status 400 is wrapped, a
  dictionary is not wrapped again.
\<close>

theorem handle_exceptions_translate_witness:
  "handle_exceptions \<lparr>detail = PStr ''bad input'', exc_status_code = 400\<rparr> =
     \<lparr>data = PDict [(''detail'', PStr ''bad input'')], status_code = 400\<rparr> \<and>
   handle_exceptions \<lparr>detail = PDict [(''field'', PStr ''x'')], exc_status_code = 422\<rparr> =
     \<lparr>data = PDict [(''field'', PStr ''x'')], status_code = 422\<rparr>"
  using handle_exceptions_translate [of "\<lparr>detail = PStr ''bad input'', exc_status_code = 400\<rparr>"]
    handle_exceptions_translate [of "\<lparr>detail = PDict [(''field'', PStr ''x'')], exc_status_code = 422\<rparr>"]
  by simp

subsection \<open>Route resolution\<close>

lemma getitem_map_of:
  "getitem d k = (case map_of d k of None \<Rightarrow> Inl (Exception ''KeyError'') | Some v \<Rightarrow> Inr v)"
  by (induction d) auto

lemma find_endpoint_loop_eq:
  "set ks \<subseteq> set (keys us) \<Longrightarrow>
   find_endpoint_loop ks us p = (if p \<in> set ks then getitem us p else Inr UNone)"
  by (induction ks) auto

lemma map_of_keys: "map_of d k = None \<longleftrightarrow> k \<notin> set (keys d)"
  by (simp add: keys_def map_of_eq_None_iff)

lemma find_endpoint_eq:
  "find_endpoint cfg p = Inr (case map_of (urls cfg) p of None \<Rightarrow> UNone | Some v \<Rightarrow> v)"
proof (cases "map_of (urls cfg) p")
  case None
  then have "p \<notin> set (keys (urls cfg))" by (simp add: map_of_keys)
  with None show ?thesis by (simp add: find_endpoint_def find_endpoint_loop_eq)
next
  case (Some v)
  then have "p \<in> set (keys (urls cfg))" using map_of_keys [of "urls cfg" p] by auto
  with Some show ?thesis by (simp add: find_endpoint_def find_endpoint_loop_eq getitem_map_of)
qed

text \<open>
  Claim C4. \<^verbatim>\<open>find_endpoint\<close> never raises. A path that differs from every registered
  path resolves to \<^verbatim>\<open>None\<close> (not found), whatever it shares with a registered path; a
  path equal to a registered path resolves to the value registered for it.
\<close>

theorem find_endpoint_exact:
  "(\<exists>v. find_endpoint cfg q = Inr v) \<and>
   ((\<forall>p \<in> set (keys (urls cfg)). q \<noteq> p) \<longrightarrow> find_endpoint cfg q = Inr UNone) \<and>
   (\<forall>h. map_of (urls cfg) q = Some h \<longrightarrow> find_endpoint cfg q = Inr h)"
proof -
  have "(\<forall>p \<in> set (keys (urls cfg)). q \<noteq> p) \<Longrightarrow> map_of (urls cfg) q = None"
    by (auto simp: map_of_keys)
  then show ?thesis by (auto simp: find_endpoint_eq)
qed

text \<open>
  With \<^verbatim>\<open>/users\<close> registered: a proper prefix, an extension and a suffix of it are
  not found, the path itself is.
\<close>

theorem find_endpoint_exact_witness:
  "find_endpoint users_config ''/user'' = Inr UNone \<and>
   find_endpoint users_config ''/users/'' = Inr UNone \<and>
   find_endpoint users_config ''users'' = Inr UNone \<and>
   find_endpoint users_config ''/users'' = Inr (UEndpoint ok_handler)"
  using find_endpoint_exact [of users_config "''/user''"]
    find_endpoint_exact [of users_config "''/users/''"]
    find_endpoint_exact [of users_config "''users''"]
    find_endpoint_exact [of users_config "''/users''"]
  by (simp add: users_config_def keys_def)

subsection \<open>Collecting the routes\<close>

lemma keys_setitem_list:
  "keys (setitem d k v) = (if k \<in> set (keys d) then keys d else keys d @ [k])"
  by (induction d) (force simp: keys_def)+

lemma keys_setitem: "set (keys (setitem d k v)) = insert k (set (keys d))"
  by (auto simp: keys_setitem_list)

lemma collect_keys_mono:
  "set (keys (urls (fst s))) \<subseteq> set (keys (urls (fst (collect_urls pre us s))))"
  "set (keys (urls (fst s))) \<subseteq> set (keys (urls (fst (collect_item pre u h s))))"
proof (induction pre us s and pre u h s rule: collect_urls_collect_item.induct)
  case (1 pre_url s)
  then show ?case by simp
next
  case (2 pre_url url endpoint rest s)
  then show ?case by auto
next
  case (3 pre_url url endpoint cfg log)
  then show ?case
    by (cases endpoint) (auto simp: keys_setitem)
qed

lemma collect_item_leaf:
  "\<not> is_dict h \<Longrightarrow> pre @ u \<in> set (keys (urls (fst (collect_item pre u h s))))"
  by (cases s; cases h) (simp_all add: keys_setitem)

lemma collect_urls_leaf:
  "(u, h) \<in> set us \<Longrightarrow> \<not> is_dict h \<Longrightarrow>
   pre @ u \<in> set (keys (urls (fst (collect_urls pre us s))))"
proof (induction us arbitrary: s)
  case Nil
  then show ?case by simp
next
  case (Cons a us)
  obtain k v where a: "a = (k, v)" by (cases a)
  show ?case
  proof (cases "(u, h) = a")
    case True
    with a Cons.prems have "pre @ u \<in> set (keys (urls (fst (collect_item pre k v s))))"
      using collect_item_leaf [of h pre u s] by simp
    then show ?thesis
      using collect_keys_mono(1) [of "collect_item pre k v s" pre us] by (auto simp: a)
  next
    case False
    with Cons.prems have "(u, h) \<in> set us" by simp
    from Cons.IH [OF this Cons.prems(2)] show ?thesis by (simp add: a)
  qed
qed

lemma collect_urls_group:
  "(g, UDict sub) \<in> set us \<Longrightarrow> (u, h) \<in> set sub \<Longrightarrow> \<not> is_dict h \<Longrightarrow>
   pre @ ''/'' @ g @ u \<in> set (keys (urls (fst (collect_urls pre us s))))"
proof (induction us arbitrary: s)
  case Nil
  then show ?case by simp
next
  case (Cons a us)
  obtain k v where a: "a = (k, v)" by (cases a)
  obtain cfg log where s: "s = (cfg, log)" by (cases s)
  show ?case
  proof (cases "(g, UDict sub) = a")
    case True
    then have kv: "k = g" "v = UDict sub" using a by simp_all
    have "(pre @ ''/'' @ g) @ u
        \<in> set (keys (urls (fst (collect_urls (pre @ ''/'' @ g) sub (cfg, log)))))"
      using collect_urls_leaf [OF Cons.prems(2,3)] by blast
    then have "pre @ ''/'' @ g @ u \<in> set (keys (urls (fst (collect_item pre k v s))))"
      by (simp add: kv s)
    then show ?thesis
      using collect_keys_mono(1) [of "collect_item pre k v s" pre us] by (auto simp: a)
  next
    case False
    with Cons.prems have "(g, UDict sub) \<in> set us" by simp
    from Cons.IH [OF this Cons.prems(2,3)] show ?thesis by (simp add: a)
  qed
qed

lemma store_all_append: "store_all d (xs @ ys) = store_all (store_all d xs) ys"
  by (simp add: store_all_def)

lemma collect_urls_flatten:
  "urls (fst (collect_urls pre us s)) = store_all (urls (fst s)) (flatten_urls pre us)"
  "urls (fst (collect_item pre u h s)) = store_all (urls (fst s)) (flatten_item pre u h)"
proof (induction pre us s and pre u h s rule: collect_urls_collect_item.induct)
  case (1 pre_url s)
  then show ?case by (simp add: store_all_def)
next
  case (2 pre_url url endpoint rest s)
  then show ?case by (simp add: store_all_append)
next
  case (3 pre_url url endpoint cfg log)
  then show ?case
    by (cases endpoint) (simp_all add: store_all_def)
qed

lemma map_of_setitem: "map_of (setitem d k v) = (map_of d)(k \<mapsto> v)"
  by (induction d) (auto simp: fun_eq_iff)

lemma map_of_store_all:
  "map_of (store_all d ws) p =
     (case map_of (rev ws) p of Some v \<Rightarrow> Some v | None \<Rightarrow> map_of d p)"
proof (induction ws arbitrary: d)
  case Nil
  then show ?case by (simp add: store_all_def)
next
  case (Cons a ws)
  obtain k v where a: "a = (k, v)" by (cases a)
  have "store_all d (a # ws) = store_all (setitem d k v) ws"
    by (simp add: store_all_def a)
  then show ?case
    using Cons.IH [of "setitem d k v"]
    by (auto simp: a map_of_setitem map_add_def split: option.splits)
qed

lemma flatten_leaf:
  "(u, h) \<in> set us \<Longrightarrow> \<not> is_dict h \<Longrightarrow> (pre @ u, h) \<in> set (flatten_urls pre us)"
proof (induction us)
  case Nil
  then show ?case by simp
next
  case (Cons a us)
  obtain k v where a: "a = (k, v)" by (cases a)
  show ?case
  proof (cases "(u, h) = a")
    case True
    with a Cons.prems(2) show ?thesis by (cases h) auto
  next
    case False
    with Cons show ?thesis by (auto simp: a)
  qed
qed

lemma flatten_group:
  "(g, UDict sub) \<in> set us \<Longrightarrow> (u, h) \<in> set sub \<Longrightarrow> \<not> is_dict h \<Longrightarrow>
   (pre @ ''/'' @ g @ u, h) \<in> set (flatten_urls pre us)"
proof (induction us)
  case Nil
  then show ?case by simp
next
  case (Cons a us)
  obtain k v where a: "a = (k, v)" by (cases a)
  show ?case
  proof (cases "(g, UDict sub) = a")
    case True
    have "((pre @ ''/'' @ g) @ u, h) \<in> set (flatten_urls (pre @ ''/'' @ g) sub)"
      using flatten_leaf [OF Cons.prems(2,3)] by blast
    with True a show ?thesis by auto
  next
    case False
    with Cons show ?thesis by (auto simp: a)
  qed
qed

lemma distinct_last_write:
  assumes "distinct (map fst ws)" and "(p, h) \<in> set ws"
  shows "map_of (rev ws) p = Some h"
proof -
  have "distinct (map fst (rev ws))" using assms(1) by (simp add: rev_map [symmetric])
  moreover have "(p, h) \<in> set (rev ws)" using assms(2) by simp
  ultimately show ?thesis by (rule map_of_is_SomeI)
qed

lemma handlers_differ: "UEndpoint crash_handler \<noteq> (UEndpoint ok_handler :: unit url_value)"
proof
  assume "UEndpoint crash_handler = (UEndpoint ok_handler :: unit url_value)"
  then have "crash_handler () users_request = ok_handler () users_request" by simp
  then show False by (simp add: crash_handler_def ok_handler_def)
qed

text \<open>
  Claim C10 says that for a group \<open>g\<close> with a leaf \<open>(u, h)\<close> the handler \<open>h\<close> is
  registered under \<^verbatim>\<open>'/' + g + u\<close>. With no separator before the key of a leaf, the
  leaf \<^verbatim>\<open>bc\<close> of the group \<^verbatim>\<open>a\<close> and the leaf \<^verbatim>\<open>c\<close> of the group \<^verbatim>\<open>ab\<close> both get
  the path \<^verbatim>\<open>/abc\<close>: the second assignment replaces the first, and the table holds the
  handler of the second under that path, not the handler of the first.
\<close>

theorem collect_urls_collision_counterexample:
  "(''a'', UDict [(''bc'', UEndpoint ok_handler)]) \<in> set collision_urls
   \<and> urls (fst (collect_urls [] collision_urls (empty_config, []))) =
       [(''/abc'', UEndpoint crash_handler)]
   \<and> find_endpoint (fst (collect_urls [] collision_urls (empty_config, []))) (''/'' @ ''a'' @ ''bc'')
       = Inr (UEndpoint crash_handler)
   \<and> find_endpoint (fst (collect_urls [] collision_urls (empty_config, []))) (''/'' @ ''a'' @ ''bc'')
       \<noteq> Inr (UEndpoint ok_handler)"
  using handlers_differ
  by (simp add: collision_urls_def empty_config_def find_endpoint_def keys_def)

text \<open>
  Claim C10, amended. \<^verbatim>\<open>collect_urls\<close> puts a \<^verbatim>\<open>/\<close> before the key of each nested
  group and nothing between the prefix and the key of a leaf. For any \<^verbatim>\<open>urls\<close> that
  hold a group \<open>g\<close> with a leaf \<open>(u, h)\<close>, the handler \<open>h\<close> is assigned to the path
  \<^verbatim>\<open>'/' + g + u\<close>, which is a path of the table; with a second group \<open>g1\<close> around
  \<open>g\<close> the path is \<^verbatim>\<open>'/' + g1 + '/' + g + u\<close>. The table holds \<open>h\<close> under
  \<^verbatim>\<open>'/' + g + u\<close> when no two entries of the \<^verbatim>\<open>urls\<close> get the same path; in general
  it holds under every path the value assigned to it last.
\<close>

theorem collect_urls_group_leaf_path:
  assumes "(g, UDict sub) \<in> set us" and "(u, h) \<in> set sub" and "\<not> is_dict h"
  shows "(''/'' @ g @ u, h) \<in> set (flatten_urls [] us)
    \<and> urls (fst (collect_urls [] us (cfg, log))) = store_all (urls cfg) (flatten_urls [] us)
    \<and> ''/'' @ g @ u \<in> set (keys (urls (fst (collect_urls [] us (cfg, log)))))
    \<and> (distinct (map fst (flatten_urls [] us)) \<longrightarrow>
         find_endpoint (fst (collect_urls [] us (cfg, log))) (''/'' @ g @ u) = Inr h)
    \<and> (us = [(g, UDict [(u, h)])] \<longrightarrow>
         urls (fst (collect_urls [] us (cfg, log))) = setitem (urls cfg) (''/'' @ g @ u) h)
    \<and> urls (fst (collect_urls [] [(g1, UDict [(g, UDict [(u, h)])])] (cfg, log)))
         = setitem (urls cfg) (''/'' @ g1 @ ''/'' @ g @ u) h
    \<and> (\<forall>p. map_of (urls (fst (collect_urls [] us (cfg, log)))) p =
         (case map_of (rev (flatten_urls [] us)) p of
            Some v \<Rightarrow> Some v | None \<Rightarrow> map_of (urls cfg) p))"
proof -
  have fl: "(''/'' @ g @ u, h) \<in> set (flatten_urls [] us)"
    using flatten_group [OF assms, of "[]"] by simp
  have st: "urls (fst (collect_urls [] us (cfg, log))) = store_all (urls cfg) (flatten_urls [] us)"
    by (simp add: collect_urls_flatten)
  have ky: "''/'' @ g @ u \<in> set (keys (urls (fst (collect_urls [] us (cfg, log)))))"
    using collect_urls_group [OF assms, of "[]" "(cfg, log)"] by simp
  have dv: "distinct (map fst (flatten_urls [] us)) \<longrightarrow>
         find_endpoint (fst (collect_urls [] us (cfg, log))) (''/'' @ g @ u) = Inr h"
  proof
    assume d: "distinct (map fst (flatten_urls [] us))"
    have "map_of (urls (fst (collect_urls [] us (cfg, log)))) (''/'' @ g @ u) = Some h"
      using distinct_last_write [OF d fl] by (simp add: st map_of_store_all)
    then show "find_endpoint (fst (collect_urls [] us (cfg, log))) (''/'' @ g @ u) = Inr h"
      by (simp add: find_endpoint_eq)
  qed
  have sg: "us = [(g, UDict [(u, h)])] \<longrightarrow>
         urls (fst (collect_urls [] us (cfg, log))) = setitem (urls cfg) (''/'' @ g @ u) h"
    using assms(3) by (cases h) simp_all
  have nl: "urls (fst (collect_urls [] [(g1, UDict [(g, UDict [(u, h)])])] (cfg, log)))
         = setitem (urls cfg) (''/'' @ g1 @ ''/'' @ g @ u) h"
    using assms(3) by (cases h) simp_all
  have lw: "\<forall>p. map_of (urls (fst (collect_urls [] us (cfg, log)))) p =
         (case map_of (rev (flatten_urls [] us)) p of
            Some v \<Rightarrow> Some v | None \<Rightarrow> map_of (urls cfg) p)"
    by (simp add: st map_of_store_all)
  from fl st ky dv sg nl lw show ?thesis by blast
qed

text \<open>
  A leaf beside the group \<^verbatim>\<open>users\<close> with the leaves \<^verbatim>\<open>list\<close> and \<^verbatim>\<open>del\<close>: the
  table holds \<^verbatim>\<open>/userslist\<close> and \<^verbatim>\<open>/usersdel\<close>, each with its handler, and the path
  \<^verbatim>\<open>/users/del\<close> is not found.
\<close>

theorem collect_urls_group_leaf_path_witness:
  "urls (fst (collect_urls [] users_two_urls (empty_config, []))) =
     [(''health'', UEndpoint ok_handler), (''/userslist'', UEndpoint ok_handler),
      (''/usersdel'', UEndpoint crash_handler)]
   \<and> find_endpoint (fst (collect_urls [] users_two_urls (empty_config, []))) ''/usersdel''
       = Inr (UEndpoint crash_handler)
   \<and> find_endpoint (fst (collect_urls [] users_two_urls (empty_config, []))) ''/users/del''
       = Inr UNone"
proof -
  have g: "(''users'', UDict [(''list'', UEndpoint ok_handler), (''del'', UEndpoint crash_handler)])
      \<in> set users_two_urls"
    by (simp add: users_two_urls_def)
  have l: "(''del'', UEndpoint crash_handler)
      \<in> set [(''list'', UEndpoint ok_handler), (''del'', UEndpoint crash_handler :: unit url_value)]"
    by simp
  have n: "\<not> is_dict (UEndpoint crash_handler :: unit url_value)" by simp
  have d: "distinct (map fst (flatten_urls [] users_two_urls))"
    by (simp add: users_two_urls_def)
  have u: "urls (fst (collect_urls [] users_two_urls (empty_config, []))) =
     [(''health'', UEndpoint ok_handler), (''/userslist'', UEndpoint ok_handler),
      (''/usersdel'', UEndpoint crash_handler)]"
    by (simp add: users_two_urls_def empty_config_def)
  have f: "find_endpoint (fst (collect_urls [] users_two_urls (empty_config, []))) ''/usersdel''
       = Inr (UEndpoint crash_handler)"
    using collect_urls_group_leaf_path [OF g l n, of empty_config "[]"] d by simp
  have m: "find_endpoint (fst (collect_urls [] users_two_urls (empty_config, []))) ''/users/del''
       = Inr UNone"
    by (simp add: find_endpoint_def keys_def u)
  from u f m show ?thesis by blast
qed

text \<open>
  Claim C8. A route that points to \<^verbatim>\<open>...\<close> or to \<^verbatim>\<open>None\<close> is to be rejected when the
  configuration is loaded and kept out of the table. \<^verbatim>\<open>collect_urls\<close> logs the error and
  stores the route all the same: for the \<^verbatim>\<open>urls\<close> \<^verbatim>\<open>{'x': ..., 'y': None}\<close> both paths
  are in the table, \<^verbatim>\<open>find_endpoint\<close> resolves \<^verbatim>\<open>x\<close> to \<^verbatim>\<open>...\<close>, and a request for
  \<^verbatim>\<open>x\<close> reaches the call of the endpoint, which fails, and is answered with 500.
\<close>

theorem placeholder_route_is_registered:
  "collect_urls [] placeholder_urls (empty_config, []) =
     (\<lparr>urls = [(''x'', UEllipsis), (''y'', UNone)], middlewares = []\<rparr>,
      [LoggerError (ellipsis_message [] ''x''), LoggerError (none_message [] ''y'')])
   \<and> find_endpoint (fst (collect_urls [] placeholder_urls (empty_config, []))) ''x''
       = Inr UEllipsis
   \<and> out_events (run (fst (collect_urls [] placeholder_urls (empty_config, []))) () x_scope [])
       = [MonitoringBefore (Request x_scope []), EndpointCalled (Request x_scope []),
          LoggerCritical ''TypeError'', HttpResponse 500 None (Some True)]"
  by (simp add: run_defs example_defs placeholder_urls_def)

subsection \<open>The events of the two passes\<close>

lemma before_calls_append [simp]: "before_calls (xs @ ys) = before_calls xs @ before_calls ys"
  by (induction xs rule: before_calls.induct) simp_all

lemma after_calls_append [simp]: "after_calls (xs @ ys) = after_calls xs @ after_calls ys"
  by (induction xs rule: after_calls.induct) simp_all

lemma http_responses_append [simp]:
  "http_responses (xs @ ys) = http_responses xs @ http_responses ys"
  by (induction xs rule: http_responses.induct) simp_all

lemma endpoint_calls_append [simp]:
  "endpoint_calls (xs @ ys) = endpoint_calls xs @ endpoint_calls ys"
  by (induction xs rule: endpoint_calls.induct) simp_all

lemma before_pass_events:
  "before_pass ms w req = (w', evs, r) \<Longrightarrow>
   after_calls evs = [] \<and> http_responses evs = [] \<and> prefix (before_calls evs) (map name ms)"
  by (induction ms arbitrary: w req w' evs r)
    (auto split: prod.splits sum.splits)

lemma before_pass_Inr:
  "before_pass ms w req = (w', evs, Inr req') \<Longrightarrow> before_calls evs = map name ms"
  by (induction ms arbitrary: w req w' evs)
    (auto split: prod.splits sum.splits)

lemma before_pass_no_endpoint:
  "before_pass ms w req = (w', evs, r) \<Longrightarrow> endpoint_calls evs = []"
  by (induction ms arbitrary: w req w' evs r) (auto split: prod.splits sum.splits)

lemma before_pass_append:
  "before_pass (pre @ post) w req =
     (case before_pass pre w req of
        (w1, evs1, Inl e) \<Rightarrow> (w1, evs1, Inl e)
      | (w1, evs1, Inr req1) \<Rightarrow>
          (case before_pass post w1 req1 of (w2, evs2, r) \<Rightarrow> (w2, evs1 @ evs2, r)))"
  by (induction pre arbitrary: w req) (auto split: prod.splits sum.splits)

lemma before_pass_raises:
  assumes "before_pass pre w req = (w1, evs1, Inr req1)"
    and "before m w1 req1 = (w2, Inl e)"
  shows "before_pass (pre @ m # post) w req = (w2, evs1 @ [BeforeCalled (name m) req1], Inl e)"
  using assms by (simp add: before_pass_append)

lemma after_pass_events:
  "after_pass ms w resp = (w', evs, r) \<Longrightarrow>
   before_calls evs = [] \<and> http_responses evs = [] \<and> prefix (after_calls evs) (map name ms)"
  by (induction ms arbitrary: w resp w' evs r)
    (auto split: prod.splits sum.splits exn.splits)


lemma after_pass_no_endpoint:
  "after_pass ms w resp = (w', evs, r) \<Longrightarrow> endpoint_calls evs = []"
  by (induction ms arbitrary: w resp w' evs r) (auto split: prod.splits sum.splits exn.splits)



lemma try_body_events:
  assumes "try_body ms ep w req = (w', evs, r)"
  shows "after_calls evs = []" and "http_responses evs = []"
    and "prefix (before_calls evs) (map name ms)"
    and "endpoint_calls evs \<noteq> [] \<Longrightarrow> before_calls evs = map name ms"
    and "r = Inr resp \<Longrightarrow> before_calls evs = map name ms"
  using assms
  by (auto simp: try_body_def split: prod.splits sum.splits
      dest: before_pass_events before_pass_Inr before_pass_no_endpoint)

lemma after_part_events:
  "before_calls (out_events (after_part cfg w evs resp)) = before_calls evs"
  "endpoint_calls (out_events (after_part cfg w evs resp)) = endpoint_calls evs"
  "out_config (after_part cfg w evs resp) = cfg\<lparr>middlewares := rev (middlewares cfg)\<rparr>"
  by (auto simp: after_part_def Let_def split: prod.splits sum.splits
      dest: after_pass_events after_pass_no_endpoint)

lemma run_before_calls:
  "prefix (before_calls (out_events (run cfg w sc b))) (map name (middlewares cfg))"
  "endpoint_calls (out_events (run cfg w sc b)) \<noteq> [] \<Longrightarrow>
     before_calls (out_events (run cfg w sc b)) = map name (middlewares cfg)"
  by (auto simp: run_def Let_def after_part_events split: prod.splits sum.splits exn.splits if_splits
      dest: try_body_events)

lemma run_fully_served:
  "fully_served (run cfg w sc b) \<Longrightarrow>
   out_config (run cfg w sc b) = cfg\<lparr>middlewares := rev (middlewares cfg)\<rparr>"
  by (auto simp: run_def Let_def after_part_events fully_served_def
      split: prod.splits sum.splits exn.splits if_splits)

text \<open>
  \<^verbatim>\<open>http_response\<close> is called once when \<^verbatim>\<open>run\<close> returns, and not at all when an
  exception leaves \<^verbatim>\<open>run\<close>.
\<close>

lemma run_emits_once:
  "length (http_responses (out_events (run cfg w sc b))) =
     (if out_raised (run cfg w sc b) = None then 1 else 0)"
  by (auto simp: run_def Let_def after_part_def split: prod.splits sum.splits exn.splits
      dest: try_body_events(2) after_pass_events)

subsection \<open>The after-pass\<close>




subsection \<open>Errors in the before-pass and in the endpoint\<close>

text \<open>
  Claim C6. When the route resolves and a before-hook or the endpoint raises an
  exception that is not an \<^verbatim>\<open>APIException\<close> (a subclass of \<^verbatim>\<open>Exception\<close>, which is
  what \<^verbatim>\<open>except Exception\<close> catches), \<^verbatim>\<open>run\<close> logs it with \<^verbatim>\<open>logger.critical\<close>, calls
  \<^verbatim>\<open>http_response\<close> once, with status 500, \<^verbatim>\<open>exception=True\<close> and no body, so nothing
  of the exception reaches the caller, and returns. No after-hook is called. The first
  part is the before-hook of a middleware \<open>m\<close> anywhere in the chain that raises after
  the hooks before it have returned: no later before-hook and no endpoint is called. The
  second part is the endpoint that raises after all before-hooks have returned. The
  third part is the two together, as the body of the \<^verbatim>\<open>try\<close>.
\<close>

theorem run_unhandled_error:
  assumes "find_endpoint cfg (scope_path sc) = Inr ep" and "\<not> is_none ep"
  shows "(middlewares cfg = pre @ m # post
          \<and> before_pass pre w (Request sc b) = (w1, evs1, Inr req1)
          \<and> before m w1 req1 = (w2, Inl (Exception x))
          \<longrightarrow> run cfg w sc b =
                \<lparr>out_config = cfg, out_world = w2,
                 out_events = MonitoringBefore (Request sc b) # evs1 @
                   [BeforeCalled (name m) req1, LoggerCritical x,
                    HttpResponse 500 None (Some True)],
                 out_raised = None\<rparr>
              \<and> before_calls (out_events (run cfg w sc b)) = map name pre @ [name m]
              \<and> endpoint_calls (out_events (run cfg w sc b)) = []
              \<and> after_calls (out_events (run cfg w sc b)) = []
              \<and> http_responses (out_events (run cfg w sc b))
                  = [HttpResponse 500 None (Some True)])
       \<and> (ep = UEndpoint f
          \<and> before_pass (middlewares cfg) w (Request sc b) = (w1, evs1, Inr req1)
          \<and> f w1 req1 = (w2, Inl (Exception x))
          \<longrightarrow> run cfg w sc b =
                \<lparr>out_config = cfg, out_world = w2,
                 out_events = MonitoringBefore (Request sc b) # evs1 @
                   [EndpointCalled req1, LoggerCritical x,
                    HttpResponse 500 None (Some True)],
                 out_raised = None\<rparr>
              \<and> before_calls (out_events (run cfg w sc b)) = map name (middlewares cfg)
              \<and> endpoint_calls (out_events (run cfg w sc b)) = [req1]
              \<and> after_calls (out_events (run cfg w sc b)) = []
              \<and> http_responses (out_events (run cfg w sc b))
                  = [HttpResponse 500 None (Some True)])
       \<and> (try_body (middlewares cfg) ep w (Request sc b) = (w2, evs, Inl (Exception x))
          \<longrightarrow> run cfg w sc b =
                \<lparr>out_config = cfg, out_world = w2,
                 out_events = MonitoringBefore (Request sc b) # evs @
                   [LoggerCritical x, HttpResponse 500 None (Some True)],
                 out_raised = None\<rparr>
              \<and> after_calls (out_events (run cfg w sc b)) = []
              \<and> http_responses (out_events (run cfg w sc b))
                  = [HttpResponse 500 None (Some True)])"
proof (intro conjI)
  show "middlewares cfg = pre @ m # post
          \<and> before_pass pre w (Request sc b) = (w1, evs1, Inr req1)
          \<and> before m w1 req1 = (w2, Inl (Exception x))
          \<longrightarrow> run cfg w sc b =
                \<lparr>out_config = cfg, out_world = w2,
                 out_events = MonitoringBefore (Request sc b) # evs1 @
                   [BeforeCalled (name m) req1, LoggerCritical x,
                    HttpResponse 500 None (Some True)],
                 out_raised = None\<rparr>
              \<and> before_calls (out_events (run cfg w sc b)) = map name pre @ [name m]
              \<and> endpoint_calls (out_events (run cfg w sc b)) = []
              \<and> after_calls (out_events (run cfg w sc b)) = []
              \<and> http_responses (out_events (run cfg w sc b))
                  = [HttpResponse 500 None (Some True)]"
  proof
    assume h: "middlewares cfg = pre @ m # post
            \<and> before_pass pre w (Request sc b) = (w1, evs1, Inr req1)
            \<and> before m w1 req1 = (w2, Inl (Exception x))"
    then have bp: "before_pass (middlewares cfg) w (Request sc b)
        = (w2, evs1 @ [BeforeCalled (name m) req1], Inl (Exception x))"
      using before_pass_raises [of pre w "Request sc b" w1 evs1 req1 m w2 "Exception x" post]
      by simp
    have r: "run cfg w sc b =
                  \<lparr>out_config = cfg, out_world = w2,
                   out_events = MonitoringBefore (Request sc b) # evs1 @
                     [BeforeCalled (name m) req1, LoggerCritical x,
                      HttpResponse 500 None (Some True)],
                   out_raised = None\<rparr>"
      using assms bp
      by (simp add: run_def Let_def Request_def try_body_def HTTP_500_INTERNAL_SERVER_ERROR_def)
    from h have p: "before_pass pre w (Request sc b) = (w1, evs1, Inr req1)" by simp
    note e = before_pass_events [OF p] before_pass_Inr [OF p] before_pass_no_endpoint [OF p]
    show "run cfg w sc b =
                  \<lparr>out_config = cfg, out_world = w2,
                   out_events = MonitoringBefore (Request sc b) # evs1 @
                     [BeforeCalled (name m) req1, LoggerCritical x,
                      HttpResponse 500 None (Some True)],
                   out_raised = None\<rparr>
       \<and> before_calls (out_events (run cfg w sc b)) = map name pre @ [name m]
       \<and> endpoint_calls (out_events (run cfg w sc b)) = []
       \<and> after_calls (out_events (run cfg w sc b)) = []
       \<and> http_responses (out_events (run cfg w sc b)) = [HttpResponse 500 None (Some True)]"
      unfolding r using e by simp
  qed
next
  show "ep = UEndpoint f
          \<and> before_pass (middlewares cfg) w (Request sc b) = (w1, evs1, Inr req1)
          \<and> f w1 req1 = (w2, Inl (Exception x))
          \<longrightarrow> run cfg w sc b =
                \<lparr>out_config = cfg, out_world = w2,
                 out_events = MonitoringBefore (Request sc b) # evs1 @
                   [EndpointCalled req1, LoggerCritical x,
                    HttpResponse 500 None (Some True)],
                 out_raised = None\<rparr>
              \<and> before_calls (out_events (run cfg w sc b)) = map name (middlewares cfg)
              \<and> endpoint_calls (out_events (run cfg w sc b)) = [req1]
              \<and> after_calls (out_events (run cfg w sc b)) = []
              \<and> http_responses (out_events (run cfg w sc b))
                  = [HttpResponse 500 None (Some True)]"
  proof
    assume h: "ep = UEndpoint f
            \<and> before_pass (middlewares cfg) w (Request sc b) = (w1, evs1, Inr req1)
            \<and> f w1 req1 = (w2, Inl (Exception x))"
    then have p: "before_pass (middlewares cfg) w (Request sc b) = (w1, evs1, Inr req1)" by simp
    have r: "run cfg w sc b =
                  \<lparr>out_config = cfg, out_world = w2,
                   out_events = MonitoringBefore (Request sc b) # evs1 @
                     [EndpointCalled req1, LoggerCritical x,
                      HttpResponse 500 None (Some True)],
                   out_raised = None\<rparr>"
      using assms h
      by (simp add: run_def Let_def Request_def try_body_def HTTP_500_INTERNAL_SERVER_ERROR_def)
    note e = before_pass_events [OF p] before_pass_Inr [OF p] before_pass_no_endpoint [OF p]
    show "run cfg w sc b =
                  \<lparr>out_config = cfg, out_world = w2,
                   out_events = MonitoringBefore (Request sc b) # evs1 @
                     [EndpointCalled req1, LoggerCritical x,
                      HttpResponse 500 None (Some True)],
                   out_raised = None\<rparr>
       \<and> before_calls (out_events (run cfg w sc b)) = map name (middlewares cfg)
       \<and> endpoint_calls (out_events (run cfg w sc b)) = [req1]
       \<and> after_calls (out_events (run cfg w sc b)) = []
       \<and> http_responses (out_events (run cfg w sc b)) = [HttpResponse 500 None (Some True)]"
      unfolding r using e by simp
  qed
next
  show "try_body (middlewares cfg) ep w (Request sc b) = (w2, evs, Inl (Exception x))
          \<longrightarrow> run cfg w sc b =
                \<lparr>out_config = cfg, out_world = w2,
                 out_events = MonitoringBefore (Request sc b) # evs @
                   [LoggerCritical x, HttpResponse 500 None (Some True)],
                 out_raised = None\<rparr>
              \<and> after_calls (out_events (run cfg w sc b)) = []
              \<and> http_responses (out_events (run cfg w sc b))
                  = [HttpResponse 500 None (Some True)]"
  proof
    assume t: "try_body (middlewares cfg) ep w (Request sc b) = (w2, evs, Inl (Exception x))"
    have r: "run cfg w sc b =
             \<lparr>out_config = cfg, out_world = w2,
              out_events = MonitoringBefore (Request sc b) # evs @
                [LoggerCritical x, HttpResponse 500 None (Some True)],
              out_raised = None\<rparr>"
      using assms t by (simp add: run_def Let_def Request_def HTTP_500_INTERNAL_SERVER_ERROR_def)
    show "run cfg w sc b =
                  \<lparr>out_config = cfg, out_world = w2,
                   out_events = MonitoringBefore (Request sc b) # evs @
                     [LoggerCritical x, HttpResponse 500 None (Some True)],
                   out_raised = None\<rparr>
                \<and> after_calls (out_events (run cfg w sc b)) = []
                \<and> http_responses (out_events (run cfg w sc b))
                    = [HttpResponse 500 None (Some True)]"
      unfolding r using try_body_events(1,2) [OF t] by simp
  qed
qed

lemma crash_before_pre:
  "before_pass [pass_mw ''A''] () (Request users_scope []) =
     ((), [BeforeCalled ''A'' users_request], Inr users_request)"
  by (simp add: run_defs example_defs)

lemma ok_before:
  "before_pass (middlewares crash_config) () (Request users_scope []) =
     ((), [BeforeCalled ''A'' users_request], Inr users_request)"
  by (simp add: run_defs example_defs)

text \<open>
  A before-hook that raises \<^verbatim>\<open>Exception('boom')\<close> in the middle of the chain
  \<open>A, B, C\<close>, and an endpoint that raises it behind one middleware.
\<close>

theorem run_unhandled_error_witness:
  "find_endpoint crash_before_config (scope_path users_scope) = Inr (UEndpoint ok_handler)
   \<and> middlewares crash_before_config = [pass_mw ''A''] @ crash_before_mw ''B'' # [pass_mw ''C'']
   \<and> before (crash_before_mw ''B'') () users_request = ((), Inl (Exception ''boom''))
   \<and> out_events (run crash_before_config () users_scope []) =
       [MonitoringBefore users_request, BeforeCalled ''A'' users_request,
        BeforeCalled ''B'' users_request, LoggerCritical ''boom'',
        HttpResponse 500 None (Some True)]
   \<and> find_endpoint crash_config (scope_path users_scope) = Inr (UEndpoint crash_handler)
   \<and> crash_handler () users_request = ((), Inl (Exception ''boom''))
   \<and> out_events (run crash_config () users_scope []) =
       [MonitoringBefore users_request, BeforeCalled ''A'' users_request,
        EndpointCalled users_request, LoggerCritical ''boom'',
        HttpResponse 500 None (Some True)]"
proof -
  have r: "Request users_scope [] = users_request"
    by (simp add: Request_def users_scope_def users_request_def)
  have f1: "find_endpoint crash_before_config (scope_path users_scope) = Inr (UEndpoint ok_handler)"
    by (simp add: run_defs example_defs crash_before_config_def)
  have n1: "\<not> is_none (UEndpoint ok_handler :: unit url_value)" by simp
  have m1: "middlewares crash_before_config
      = [pass_mw ''A''] @ crash_before_mw ''B'' # [pass_mw ''C'']"
    by (simp add: crash_before_config_def)
  have b1: "before (crash_before_mw ''B'') () users_request = ((), Inl (Exception ''boom''))"
    by (simp add: crash_before_mw_def)
  have e1: "out_events (run crash_before_config () users_scope []) =
       [MonitoringBefore users_request, BeforeCalled ''A'' users_request,
        BeforeCalled ''B'' users_request, LoggerCritical ''boom'',
        HttpResponse 500 None (Some True)]"
    using run_unhandled_error [OF f1 n1, of "[pass_mw ''A'']" "crash_before_mw ''B''"
        "[pass_mw ''C'']" "()" "[]" "()" "[BeforeCalled ''A'' users_request]" users_request
        "()" "''boom''"] m1 crash_before_pre b1
    by (simp add: r crash_before_mw_def)
  have f2: "find_endpoint crash_config (scope_path users_scope) = Inr (UEndpoint crash_handler)"
    by (simp add: run_defs example_defs)
  have n2: "\<not> is_none (UEndpoint crash_handler :: unit url_value)" by simp
  have h2: "crash_handler () users_request = ((), Inl (Exception ''boom''))"
    by (simp add: crash_handler_def)
  have e2: "out_events (run crash_config () users_scope []) =
       [MonitoringBefore users_request, BeforeCalled ''A'' users_request,
        EndpointCalled users_request, LoggerCritical ''boom'',
        HttpResponse 500 None (Some True)]"
    using run_unhandled_error [OF f2 n2, of _ _ _ "()" "[]" "()"
        "[BeforeCalled ''A'' users_request]" users_request "()" "''boom''" crash_handler]
      ok_before h2
    by (simp add: r)
  from f1 m1 b1 e1 f2 h2 e2 show ?thesis by blast
qed






subsection \<open>The shared list of middlewares across requests\<close>

lemma abc_first:
  "run abc_config () users_scope [] =
     \<lparr>out_config = abc_config\<lparr>middlewares := [pass_mw ''C'', pass_mw ''B'', pass_mw ''A'']\<rparr>,
      out_world = (),
      out_events =
        [MonitoringBefore users_request,
         BeforeCalled ''A'' users_request, BeforeCalled ''B'' users_request,
         BeforeCalled ''C'' users_request, EndpointCalled users_request,
         AfterCalled ''C'' ok_response, AfterCalled ''B'' ok_response,
         AfterCalled ''A'' ok_response,
         HttpResponse 200 (Some (PDict [(''ok'', PBool True)])) None],
      out_raised = None\<rparr>"
  by (simp add: run_defs example_defs ok_response_def)

lemma abc_second:
  "run (abc_config\<lparr>middlewares := [pass_mw ''C'', pass_mw ''B'', pass_mw ''A'']\<rparr>) () users_scope [] =
     \<lparr>out_config = abc_config,
      out_world = (),
      out_events =
        [MonitoringBefore users_request,
         BeforeCalled ''C'' users_request, BeforeCalled ''B'' users_request,
         BeforeCalled ''A'' users_request, EndpointCalled users_request,
         AfterCalled ''A'' ok_response, AfterCalled ''B'' ok_response,
         AfterCalled ''C'' ok_response,
         HttpResponse 200 (Some (PDict [(''ok'', PBool True)])) None],
      out_raised = None\<rparr>"
  by (simp add: run_defs example_defs ok_response_def)

text \<open>
  Claim C1. After one request has been fully served through the chain \<open>A, B, C\<close>, a
  second request through the same \<^verbatim>\<open>config\<close> is to call the before-hooks in the order
  \<open>A, B, C\<close> again. \<^verbatim>\<open>run\<close> reverses \<^verbatim>\<open>config['middlewares']\<close> in place and leaves it
  reversed: the first request calls the before-hooks in the order \<open>A, B, C\<close> and is fully
  served, and the second request calls them in the order \<open>C, B, A\<close>.
\<close>

theorem second_request_sees_reversed_chain:
  "before_calls (out_events (run abc_config () users_scope [])) = [''A'', ''B'', ''C'']
   \<and> fully_served (run abc_config () users_scope [])
   \<and> before_calls (out_events
        (run (out_config (run abc_config () users_scope [])) () users_scope []))
       = [''C'', ''B'', ''A'']"
  by (simp add: abc_first abc_second fully_served_def)

text \<open>
  Claim C9. The reversal in place undoes itself: after two requests in a row that are
  both fully served, \<^verbatim>\<open>config\<close> is what it was before the first, so a third request
  calls the before-hooks along the original list (all of them, in that order, when it
  reaches the endpoint), while the second request called them along the reversed list.
\<close>

theorem reverse_twice_restores:
  assumes "fully_served (run cfg w1 sc1 b1)"
    and "cfg1 = out_config (run cfg w1 sc1 b1)"
    and "fully_served (run cfg1 w2 sc2 b2)"
    and "cfg2 = out_config (run cfg1 w2 sc2 b2)"
  shows "cfg2 = cfg
    \<and> prefix (before_calls (out_events (run cfg2 w3 sc3 b3))) (map name (middlewares cfg))
    \<and> (endpoint_calls (out_events (run cfg2 w3 sc3 b3)) \<noteq> [] \<longrightarrow>
         before_calls (out_events (run cfg2 w3 sc3 b3)) = map name (middlewares cfg))
    \<and> prefix (before_calls (out_events (run cfg1 w2 sc2 b2))) (rev (map name (middlewares cfg)))
    \<and> (endpoint_calls (out_events (run cfg1 w2 sc2 b2)) \<noteq> [] \<longrightarrow>
         before_calls (out_events (run cfg1 w2 sc2 b2)) = rev (map name (middlewares cfg)))"
proof -
  have c1: "cfg1 = cfg\<lparr>middlewares := rev (middlewares cfg)\<rparr>"
    using run_fully_served [OF assms(1)] assms(2) by simp
  have c2: "cfg2 = cfg"
    using run_fully_served [OF assms(3)] assms(4) c1 by simp
  have m1: "map name (middlewares cfg1) = rev (map name (middlewares cfg))"
    by (simp add: c1 rev_map)
  show ?thesis
    using c2 m1 run_before_calls [of cfg1 w2 sc2 b2] run_before_calls [of cfg w3 sc3 b3]
    by simp
qed

text \<open>Three requests through the chain \<open>A, B, C\<close>.\<close>

theorem reverse_twice_restores_witness:
  "fully_served (run abc_config () users_scope [])
   \<and> fully_served (run (out_config (run abc_config () users_scope [])) () users_scope [])
   \<and> out_config (run (out_config (run abc_config () users_scope [])) () users_scope [])
       = abc_config
   \<and> before_calls (out_events (run (out_config (run abc_config () users_scope [])) ()
        users_scope [])) = [''C'', ''B'', ''A'']
   \<and> before_calls (out_events
        (run (out_config (run (out_config (run abc_config () users_scope [])) () users_scope []))
           () users_scope [])) = [''A'', ''B'', ''C'']"
proof -
  have s1: "fully_served (run abc_config () users_scope [])"
    by (simp add: abc_first fully_served_def)
  have s2: "fully_served (run (out_config (run abc_config () users_scope [])) () users_scope [])"
    by (simp add: abc_first abc_second fully_served_def)
  have e2: "endpoint_calls (out_events (run (out_config (run abc_config () users_scope [])) ()
        users_scope [])) \<noteq> []"
    by (simp add: abc_first abc_second)
  have n: "map name (middlewares abc_config) = [''A'', ''B'', ''C'']"
    by (simp add: abc_config_def pass_mw_def)
  note t = reverse_twice_restores [OF s1 refl s2 refl, of "()" users_scope "[]"]
  from t have c: "out_config (run (out_config (run abc_config () users_scope [])) ()
      users_scope []) = abc_config"
    by blast
  from t e2 n have b2: "before_calls (out_events (run (out_config (run abc_config ()
      users_scope [])) () users_scope [])) = [''C'', ''B'', ''A'']"
    by simp
  have e3: "endpoint_calls (out_events (run abc_config () users_scope [])) \<noteq> []"
    by (simp add: abc_first)
  from t c e3 n have b3: "before_calls (out_events
        (run (out_config (run (out_config (run abc_config () users_scope [])) () users_scope []))
           () users_scope [])) = [''A'', ''B'', ''C'']"
    by simp
  from s1 s2 c b2 b3 show ?thesis by blast
qed

subsection \<open>One response for every request\<close>

text \<open>
  Claim C7. Whatever path a request takes, \<^verbatim>\<open>http_response\<close> is to be called exactly
  once and no exception is to leave \<^verbatim>\<open>run\<close>. The \<^verbatim>\<open>try\<close> around the before-hooks and
  the endpoint catches \<^verbatim>\<open>Exception\<close> and answers 500; the \<^verbatim>\<open>try\<close> around an after-hook
  catches \<^verbatim>\<open>APIException\<close> only. With one middleware whose after-hook raises another
  exception, that exception leaves \<^verbatim>\<open>run\<close> and \<^verbatim>\<open>http_response\<close> is not called.
\<close>

theorem after_hook_error_leaves_run:
  "out_raised (run crash_after_config () users_scope []) = Some (Exception ''boom'')
   \<and> http_responses (out_events (run crash_after_config () users_scope [])) = []
   \<and> out_events (run crash_after_config () users_scope []) =
       [MonitoringBefore users_request, BeforeCalled ''A'' users_request,
        EndpointCalled users_request, AfterCalled ''A'' ok_response]"
  by (simp add: run_defs example_defs)

end
